theory Spec2Isabelle
  imports Main
begin

section \<open>Data model\<close>

text \<open>
  \<^verbatim>\<open>config.py\<close>, class \<^verbatim>\<open>ClusterConfig\<close>: one cluster as read from the
  environment. Its fields are declared before those of \<^verbatim>\<open>OpenshiftContext\<close>, so
  the unqualified field names below belong to the latter.
\<close>

record ClusterConfig =
  name :: string
  url :: string
  token :: string
  namespace :: string

text \<open>\<^verbatim>\<open>openshift_mcp.py\<close>, dataclass \<^verbatim>\<open>OpenshiftContext\<close>.\<close>

record OpenshiftContext =
  api_url :: string
  token :: string
  namespace :: string
  name :: string
  verify_ssl :: bool

text \<open>
  The object state of \<^verbatim>\<open>OpenshiftMCP\<close>. A Python dict keeps its keys in the order
  of their first insertion, so \<^verbatim>\<open>self.contexts\<close> is an association list with
  distinct keys; \<^verbatim>\<open>self.current_context\<close> is a name or \<^verbatim>\<open>None\<close>.
\<close>

record OpenshiftMCP =
  contexts :: "(string \<times> OpenshiftContext) list"
  current_context :: "string option"

text \<open>
  What \<^verbatim>\<open>requests.get\<close> is called with, and what it yields: a response with its
  status code, its body (the attribute \<^verbatim>\<open>text\<close>, here \<open>body_text\<close>) and the result
  of \<^verbatim>\<open>response.json()\<close> (\<open>None\<close> when the body is not JSON and the method
  raises), or an exception of the transport layer.
\<close>

record http_request =
  url :: string
  headers :: "(string \<times> string) list"
  verify :: bool

record 'j http_response =
  status_code :: int
  body_text :: string
  json :: "'j option"

datatype transport_failure = ConnectionError | Timeout | SSLError

datatype py_exception =
    KeyError "string option"
  | ValueError string
  | Exception string
  | RequestException transport_failure
  | JSONDecodeError

type_synonym 'j upstream = "http_request \<Rightarrow> transport_failure + 'j http_response"

section \<open>Python primitives\<close>

text \<open>\<^verbatim>\<open>d[k] = v\<close> on a dict: an existing key keeps its place, a new one goes last.\<close>

fun dict_setitem :: "'k \<Rightarrow> 'v \<Rightarrow> ('k \<times> 'v) list \<Rightarrow> ('k \<times> 'v) list" where
  "dict_setitem k v [] = [(k, v)]"
| "dict_setitem k v ((k', v') # d) =
     (if k' = k then (k', v) # d else (k', v') # dict_setitem k v d)"

text \<open>\<^verbatim>\<open>str(n)\<close> for an integer, as an f-string formats it.\<close>

fun str_nat :: "nat \<Rightarrow> string" where
  "str_nat n =
     (if n < 10 then [''0123456789'' ! n]
      else str_nat (n div 10) @ [''0123456789'' ! (n mod 10)])"

declare str_nat.simps [simp del]

definition str_int :: "int \<Rightarrow> string" where
  "str_int i = (if i < 0 then CHR ''-'' # str_nat (nat (- i)) else str_nat (nat i))"

section \<open>The registry: \<^verbatim>\<open>OpenshiftMCP\<close>\<close>

text \<open>
  \<^verbatim>\<open>__init__\<close>: the dict comprehension inserts the contexts from left to right;
  \<^verbatim>\<open>contexts[0].name if contexts else None\<close> reads the first element only when
  there is one, so no path of the constructor raises.
\<close>

definition OpenshiftMCP_init :: "OpenshiftContext list \<Rightarrow> OpenshiftMCP" where
  "OpenshiftMCP_init ctxs =
     \<lparr> contexts = foldl (\<lambda>d ctx. dict_setitem (name ctx) ctx d) [] ctxs,
       current_context = (case ctxs of [] \<Rightarrow> None | ctx # _ \<Rightarrow> Some (name ctx)) \<rparr>"

text \<open>Whether \<^verbatim>\<open>__init__\<close> calls \<^verbatim>\<open>urllib3.disable_warnings()\<close>.\<close>

definition init_disables_warnings :: "OpenshiftContext list \<Rightarrow> bool" where
  "init_disables_warnings ctxs = list_ex (\<lambda>ctx. \<not> verify_ssl ctx) ctxs"

definition switch_context :: "string \<Rightarrow> OpenshiftMCP \<Rightarrow> bool \<times> OpenshiftMCP" where
  "switch_context n self =
     (if n \<in> set (map fst (contexts self))
      then (True, self\<lparr>current_context := Some n\<rparr>)
      else (False, self))"

definition list_contexts :: "OpenshiftMCP \<Rightarrow> string list" where
  "list_contexts self = map fst (contexts self)"

definition get_current_context :: "OpenshiftMCP \<Rightarrow> string option" where
  "get_current_context self = current_context self"

text \<open>
  The expression \<^verbatim>\<open>self.contexts[self.current_context]\<close>, with which every request
  resolves the active profile; a key that is absent (also \<^verbatim>\<open>None\<close>) raises
  \<^verbatim>\<open>KeyError\<close>.
\<close>

definition contexts_getitem :: "OpenshiftMCP \<Rightarrow> string option \<Rightarrow> py_exception + OpenshiftContext" where
  "contexts_getitem self k =
     (case k of
        None \<Rightarrow> Inl (KeyError None)
      | Some n \<Rightarrow>
          (case map_of (contexts self) n of
             None \<Rightarrow> Inl (KeyError (Some n))
           | Some ctx \<Rightarrow> Inr ctx))"

definition get_headers :: "OpenshiftMCP \<Rightarrow> py_exception + (string \<times> string) list" where
  "get_headers self =
     (case contexts_getitem self (current_context self) of
        Inl e \<Rightarrow> Inl e
      | Inr ctx \<Rightarrow> Inr [(''Authorization'', ''Bearer '' @ token ctx)])"

definition get_base_url :: "OpenshiftMCP \<Rightarrow> py_exception + string" where
  "get_base_url self =
     (case contexts_getitem self (current_context self) of
        Inl e \<Rightarrow> Inl e
      | Inr ctx \<Rightarrow> Inr (api_url ctx @ ''/api/v1/namespaces/'' @ namespace ctx))"

section \<open>The gateway: one GET per call\<close>

text \<open>
  A call of \<^verbatim>\<open>requests.get\<close> against the upstream \<open>up\<close>: its result, and the list
  of the requests that went out (one).
\<close>

definition requests_get ::
  "'j upstream \<Rightarrow> http_request \<Rightarrow> (py_exception + 'j http_response) \<times> http_request list" where
  "requests_get up req =
     ((case up req of Inl f \<Rightarrow> Inl (RequestException f) | Inr response \<Rightarrow> Inr response), [req])"

definition handle_response :: "'j http_response \<Rightarrow> py_exception + 'j" where
  "handle_response response =
     (if status_code response = 200
      then (case json response of None \<Rightarrow> Inl JSONDecodeError | Some j \<Rightarrow> Inr j)
      else Inl (Exception (''API Error: '' @ str_int (status_code response) @ '' - ''
                            @ body_text response)))"

text \<open>
  The four fetchers of the core API group evaluate, in this order: the context, the URL
  (through \<^verbatim>\<open>_get_base_url\<close>), the headers, the flag \<^verbatim>\<open>verify\<close>; then they send the
  request and hand the response to \<^verbatim>\<open>_handle_response\<close>.
\<close>

definition get_pods :: "'j upstream \<Rightarrow> OpenshiftMCP \<Rightarrow> (py_exception + 'j) \<times> http_request list" where
  "get_pods up self =
     (case contexts_getitem self (current_context self) of
        Inl e \<Rightarrow> (Inl e, [])
      | Inr ctx \<Rightarrow>
     (case get_base_url self of
        Inl e \<Rightarrow> (Inl e, [])
      | Inr base \<Rightarrow>
     (case get_headers self of
        Inl e \<Rightarrow> (Inl e, [])
      | Inr hs \<Rightarrow>
     (case requests_get up \<lparr>url = base @ ''/pods'', headers = hs, verify = verify_ssl ctx\<rparr> of
        (Inl e, tr) \<Rightarrow> (Inl e, tr)
      | (Inr response, tr) \<Rightarrow> (handle_response response, tr)))))"

definition get_services :: "'j upstream \<Rightarrow> OpenshiftMCP \<Rightarrow> (py_exception + 'j) \<times> http_request list" where
  "get_services up self =
     (case contexts_getitem self (current_context self) of
        Inl e \<Rightarrow> (Inl e, [])
      | Inr ctx \<Rightarrow>
     (case get_base_url self of
        Inl e \<Rightarrow> (Inl e, [])
      | Inr base \<Rightarrow>
     (case get_headers self of
        Inl e \<Rightarrow> (Inl e, [])
      | Inr hs \<Rightarrow>
     (case requests_get up \<lparr>url = base @ ''/services'', headers = hs, verify = verify_ssl ctx\<rparr> of
        (Inl e, tr) \<Rightarrow> (Inl e, tr)
      | (Inr response, tr) \<Rightarrow> (handle_response response, tr)))))"

definition get_deployments :: "'j upstream \<Rightarrow> OpenshiftMCP \<Rightarrow> (py_exception + 'j) \<times> http_request list" where
  "get_deployments up self =
     (case contexts_getitem self (current_context self) of
        Inl e \<Rightarrow> (Inl e, [])
      | Inr ctx \<Rightarrow>
     (case get_headers self of
        Inl e \<Rightarrow> (Inl e, [])
      | Inr hs \<Rightarrow>
     (case requests_get up
             \<lparr>url = api_url ctx @ ''/apis/apps/v1/namespaces/'' @ namespace ctx @ ''/deployments'',
              headers = hs, verify = verify_ssl ctx\<rparr> of
        (Inl e, tr) \<Rightarrow> (Inl e, tr)
      | (Inr response, tr) \<Rightarrow> (handle_response response, tr))))"

definition get_resource_quotas :: "'j upstream \<Rightarrow> OpenshiftMCP \<Rightarrow> (py_exception + 'j) \<times> http_request list" where
  "get_resource_quotas up self =
     (case contexts_getitem self (current_context self) of
        Inl e \<Rightarrow> (Inl e, [])
      | Inr ctx \<Rightarrow>
     (case get_base_url self of
        Inl e \<Rightarrow> (Inl e, [])
      | Inr base \<Rightarrow>
     (case get_headers self of
        Inl e \<Rightarrow> (Inl e, [])
      | Inr hs \<Rightarrow>
     (case requests_get up \<lparr>url = base @ ''/resourcequotas'', headers = hs, verify = verify_ssl ctx\<rparr> of
        (Inl e, tr) \<Rightarrow> (Inl e, tr)
      | (Inr response, tr) \<Rightarrow> (handle_response response, tr)))))"

definition get_config_maps :: "'j upstream \<Rightarrow> OpenshiftMCP \<Rightarrow> (py_exception + 'j) \<times> http_request list" where
  "get_config_maps up self =
     (case contexts_getitem self (current_context self) of
        Inl e \<Rightarrow> (Inl e, [])
      | Inr ctx \<Rightarrow>
     (case get_base_url self of
        Inl e \<Rightarrow> (Inl e, [])
      | Inr base \<Rightarrow>
     (case get_headers self of
        Inl e \<Rightarrow> (Inl e, [])
      | Inr hs \<Rightarrow>
     (case requests_get up \<lparr>url = base @ ''/configmaps'', headers = hs, verify = verify_ssl ctx\<rparr> of
        (Inl e, tr) \<Rightarrow> (Inl e, tr)
      | (Inr response, tr) \<Rightarrow> (handle_response response, tr)))))"

section \<open>Calls on the registry\<close>

text \<open>
  The five fetchers, indexed by the kind of resource they list (the names of the kinds are
  those of the path segments).
\<close>

datatype resource_kind = Pods | Services | Deployments | ResourceQuotas | ConfigMaps

fun fetch :: "resource_kind \<Rightarrow> 'j upstream \<Rightarrow> OpenshiftMCP \<Rightarrow> (py_exception + 'j) \<times> http_request list" where
  "fetch Pods = get_pods"
| "fetch Services = get_services"
| "fetch Deployments = get_deployments"
| "fetch ResourceQuotas = get_resource_quotas"
| "fetch ConfigMaps = get_config_maps"

text \<open>
  A method call on the object, what it returns, and its execution: the value returned or
  the exception raised, the requests sent, and the object afterwards. Only
  \<^verbatim>\<open>switch_context\<close> assigns to a field of \<^verbatim>\<open>self\<close>.
\<close>

datatype call =
    SwitchContext string
  | ListContexts
  | GetCurrentContext
  | Fetch resource_kind

datatype 'j retval =
    RBool bool
  | RNames "string list"
  | RName "string option"
  | RPayload 'j

fun exec ::
  "'j upstream \<Rightarrow> call \<Rightarrow> OpenshiftMCP \<Rightarrow> (py_exception + 'j retval) \<times> http_request list \<times> OpenshiftMCP" where
  "exec up (SwitchContext n) self =
     (case switch_context n self of (b, self') \<Rightarrow> (Inr (RBool b), [], self'))"
| "exec up ListContexts self = (Inr (RNames (list_contexts self)), [], self)"
| "exec up GetCurrentContext self = (Inr (RName (get_current_context self)), [], self)"
| "exec up (Fetch k) self =
     (case fetch k up self of
        (Inl e, tr) \<Rightarrow> (Inl e, tr, self)
      | (Inr j, tr) \<Rightarrow> (Inr (RPayload j), tr, self))"

text \<open>
  The object after a sequence of calls, each against the upstream as it answers at that
  moment; an exception ends the call that raised it and not the sequence (the loop of
  \<^verbatim>\<open>main\<close> catches it).
\<close>

fun run :: "('j upstream \<times> call) list \<Rightarrow> OpenshiftMCP \<Rightarrow> OpenshiftMCP" where
  "run [] self = self"
| "run ((up, c) # cs) self = run cs (snd (snd (exec up c self)))"

section \<open>Start-up: \<^verbatim>\<open>initialize_openshift\<close>\<close>

text \<open>
  \<^verbatim>\<open>chatbot.py\<close>: the configured clusters with a non-empty URL, token and namespace
  become contexts (\<^verbatim>\<open>verify_ssl\<close> at its default); with none left the function raises
  \<^verbatim>\<open>ValueError\<close>, otherwise it constructs the registry. \<^verbatim>\<open>main\<close> calls it before
  its loop and outside every \<^verbatim>\<open>try\<close>.
\<close>

definition usable :: "ClusterConfig \<Rightarrow> bool" where
  "usable cluster_config \<longleftrightarrow>
     ClusterConfig.url cluster_config \<noteq> [] \<and> ClusterConfig.token cluster_config \<noteq> []
     \<and> ClusterConfig.namespace cluster_config \<noteq> []"

definition to_context :: "ClusterConfig \<Rightarrow> OpenshiftContext" where
  "to_context cluster_config =
     \<lparr> api_url = ClusterConfig.url cluster_config,
       token = ClusterConfig.token cluster_config,
       namespace = ClusterConfig.namespace cluster_config,
       name = ClusterConfig.name cluster_config,
       verify_ssl = False \<rparr>"

definition initialize_openshift :: "ClusterConfig list \<Rightarrow> py_exception + OpenshiftMCP" where
  "initialize_openshift config_clusters =
     (let clusters = map to_context (filter usable config_clusters)
      in if clusters = []
         then Inl (ValueError ''No valid cluster configurations found in .env file'')
         else Inr (OpenshiftMCP_init clusters))"

text \<open>
  \<^verbatim>\<open>main\<close> up to its loop: it calls \<^verbatim>\<open>initialize_openshift\<close> outside every
  \<^verbatim>\<open>try\<close>, so an exception raised there ends the program before the first command is
  read; otherwise the loop starts with the registry returned. (The construction of the
  client of the text-generation service, an external collaborator, is left out.)
\<close>

datatype main_outcome = Aborted py_exception | LoopEntered OpenshiftMCP

definition main_startup :: "ClusterConfig list \<Rightarrow> main_outcome" where
  "main_startup config_clusters =
     (case initialize_openshift config_clusters of
        Inl e \<Rightarrow> Aborted e
      | Inr openshift \<Rightarrow> LoopEntered openshift)"

section \<open>What the specification speaks of\<close>

text \<open>The invariant of the registry: with profiles present, the current name is one of their keys.\<close>

definition registry_inv :: "OpenshiftMCP \<Rightarrow> bool" where
  "registry_inv self \<longleftrightarrow>
     (contexts self \<noteq> [] \<longrightarrow>
        (case current_context self of
           None \<Rightarrow> False
         | Some n \<Rightarrow> n \<in> set (map fst (contexts self))))"

text \<open>The stronger form for a registry with profiles: the current name is set and is a key.\<close>

definition active :: "OpenshiftMCP \<Rightarrow> bool" where
  "active self \<longleftrightarrow> (\<exists>n. current_context self = Some n \<and> n \<in> set (map fst (contexts self)))"

text \<open>
  The current name as the specification has it: set at construction, changed only by a
  switch to a registered name, which then becomes current; every other call, and a switch
  to any other name, leaves it as it is.
\<close>

fun last_switch :: "string list \<Rightarrow> string option \<Rightarrow> call list \<Rightarrow> string option" where
  "last_switch ks cur [] = cur"
| "last_switch ks cur (SwitchContext n # cs) =
     last_switch ks (if n \<in> set ks then Some n else cur) cs"
| "last_switch ks cur (c # cs) = last_switch ks cur cs"

text \<open>The names of a list in the order of their first occurrence, each once.\<close>

fun first_occurrences :: "'a list \<Rightarrow> 'a list" where
  "first_occurrences [] = []"
| "first_occurrences (x # xs) = x # first_occurrences (filter (\<lambda>y. y \<noteq> x) xs)"

text \<open>The last profile of a list that bears a given name.\<close>

definition last_named :: "string \<Rightarrow> OpenshiftContext list \<Rightarrow> OpenshiftContext option" where
  "last_named n ctxs =
     (case filter (\<lambda>ctx. name ctx = n) ctxs of
        [] \<Rightarrow> None
      | c # cs \<Rightarrow> Some (last (c # cs)))"

text \<open>
  The routes of the upstream API as the specification lists them: the core path
  \<^verbatim>\<open>{apiURL}/api/v1/namespaces/{namespace}/{kind}\<close> and, for deployments, the path of the
  apps group \<^verbatim>\<open>{apiURL}/apis/apps/v1/namespaces/{namespace}/deployments\<close>.
\<close>

fun path_segment :: "resource_kind \<Rightarrow> string" where
  "path_segment Pods = ''pods''"
| "path_segment Services = ''services''"
| "path_segment Deployments = ''deployments''"
| "path_segment ResourceQuotas = ''resourcequotas''"
| "path_segment ConfigMaps = ''configmaps''"

fun group_path :: "resource_kind \<Rightarrow> string" where
  "group_path Deployments = ''/apis/apps/v1/namespaces/''"
| "group_path k = ''/api/v1/namespaces/''"

definition spec_url :: "resource_kind \<Rightarrow> OpenshiftContext \<Rightarrow> string" where
  "spec_url k ctx = api_url ctx @ group_path k @ namespace ctx @ ''/'' @ path_segment k"

text \<open>
  The one request of the specification's common construction: the URL of the kind, the
  bearer token of the profile, certificate verification as the profile says.
\<close>

definition spec_request :: "resource_kind \<Rightarrow> OpenshiftContext \<Rightarrow> http_request" where
  "spec_request k ctx =
     \<lparr> url = spec_url k ctx,
       headers = [(''Authorization'', ''Bearer '' @ token ctx)],
       verify = verify_ssl ctx \<rparr>"

text \<open>A JSON value, for concrete payloads.\<close>

datatype json_value =
    JNull
  | JBool bool
  | JNum int
  | JStr string
  | JArr "json_value list"
  | JObj "(string \<times> json_value) list"

section \<open>Concrete data\<close>

text \<open>Two profiles, a third that repeats the first one's name, and upstreams with a fixed answer.\<close>

definition ctx_a :: OpenshiftContext where
  "ctx_a = \<lparr> api_url = ''https://a.example:6443'', token = ''ta'', namespace = ''dev'',
             name = ''a'', verify_ssl = False \<rparr>"

definition ctx_b :: OpenshiftContext where
  "ctx_b = \<lparr> api_url = ''https://b.example:6443'', token = ''tb'', namespace = ''prod'',
             name = ''b'', verify_ssl = True \<rparr>"

definition ctx_a2 :: OpenshiftContext where
  "ctx_a2 = \<lparr> api_url = ''https://a2.example:6443'', token = ''ta2'', namespace = ''test'',
              name = ''a'', verify_ssl = True \<rparr>"

definition respond :: "'j http_response \<Rightarrow> 'j upstream" where
  "respond response = (\<lambda>req. Inr response)"

definition fail_with :: "transport_failure \<Rightarrow> 'j upstream" where
  "fail_with f = (\<lambda>req. Inl f)"

definition forbidden :: "json_value http_response" where
  "forbidden = \<lparr> status_code = 403, body_text = ''Forbidden'', json = None \<rparr>"

definition ok_empty_items :: "json_value http_response" where
  "ok_empty_items =
     \<lparr> status_code = 200, body_text = ''{\"items\": []}'', json = Some (JObj [(''items'', JArr [])]) \<rparr>"

section \<open>Dicts and first occurrences\<close>

lemma keys_dict_setitem:
  "map fst (dict_setitem k v d) = (if k \<in> set (map fst d) then map fst d else map fst d @ [k])"
  by (induction d) force+

lemma map_of_dict_setitem: "map_of (dict_setitem k v d) = (map_of d)(k \<mapsto> v)"
  by (induction d) (auto simp: fun_eq_iff)

lemma set_first_occurrences: "set (first_occurrences xs) = set xs"
proof (induction xs rule: first_occurrences.induct)
  case 1
  show ?case by simp
next
  case (2 x xs)
  then show ?case by auto
qed

lemma distinct_first_occurrences: "distinct (first_occurrences xs)"
proof (induction xs rule: first_occurrences.induct)
  case 1
  show ?case by simp
next
  case (2 x xs)
  then show ?case by (simp add: set_first_occurrences)
qed

lemma first_occurrences_distinct: "distinct xs \<Longrightarrow> first_occurrences xs = xs"
proof (induction xs)
  case Nil
  show ?case by simp
next
  case (Cons x xs)
  then have "filter (\<lambda>y. y \<noteq> x) xs = xs"
    by (auto intro: filter_True)
  with Cons show ?case by simp
qed

lemma keys_foldl_setitem:
  "map fst (foldl (\<lambda>d ctx. dict_setitem (name ctx) ctx d) d ctxs) =
     map fst d @ first_occurrences (filter (\<lambda>n. n \<notin> set (map fst d)) (map name ctxs))"
proof (induction ctxs arbitrary: d)
  case Nil
  show ?case by simp
next
  case (Cons c ctxs)
  show ?case
  proof (cases "name c \<in> set (map fst d)")
    case True
    then show ?thesis
      by (simp add: Cons.IH keys_dict_setitem)
  next
    case False
    have "filter (\<lambda>y. y \<noteq> name c) (filter (\<lambda>n. n \<notin> set (map fst d)) (map name ctxs))
          = filter (\<lambda>n. n \<notin> set (map fst d @ [name c])) (map name ctxs)"
      by (auto intro: filter_cong)
    with False show ?thesis
      by (simp add: Cons.IH keys_dict_setitem)
  qed
qed

lemma keys_init: "map fst (contexts (OpenshiftMCP_init ctxs)) = first_occurrences (map name ctxs)"
  by (simp add: OpenshiftMCP_init_def keys_foldl_setitem)

lemma last_named_alt:
  "last_named n ctxs =
     (if filter (\<lambda>ctx. name ctx = n) ctxs = [] then None
      else Some (last (filter (\<lambda>ctx. name ctx = n) ctxs)))"
  by (simp add: last_named_def split: list.splits)

lemma last_named_snoc:
  "last_named n (ctxs @ [c]) = (if name c = n then Some c else last_named n ctxs)"
  by (simp add: last_named_alt)

lemma map_of_init: "map_of (contexts (OpenshiftMCP_init ctxs)) n = last_named n ctxs"
proof (induction ctxs rule: rev_induct)
  case Nil
  show ?case by (simp add: OpenshiftMCP_init_def last_named_def)
next
  case (snoc c ctxs)
  then show ?case
    by (simp add: OpenshiftMCP_init_def last_named_snoc map_of_dict_setitem)
qed

section \<open>Resolution, requests and reachable states\<close>

lemma last_named_Some: "last_named n ctxs = Some c \<Longrightarrow> name c = n \<and> c \<in> set ctxs"
proof -
  assume a: "last_named n ctxs = Some c"
  let ?fs = "filter (\<lambda>ctx. name ctx = n) ctxs"
  from a have ne: "?fs \<noteq> []" and c: "c = last ?fs"
    by (auto simp: last_named_alt split: if_splits)
  from ne have "last ?fs \<in> set ?fs" by (rule last_in_set)
  with c show ?thesis by simp
qed

lemma last_named_None: "last_named n ctxs = None \<longleftrightarrow> n \<notin> name ` set ctxs"
  by (auto simp: last_named_alt filter_empty_conv)

lemma contexts_getitem_init:
  "contexts_getitem (OpenshiftMCP_init ctxs) (Some n) =
     (case last_named n ctxs of None \<Rightarrow> Inl (KeyError (Some n)) | Some c \<Rightarrow> Inr c)"
  by (simp add: contexts_getitem_def map_of_init)

lemma fetch_resolved:
  "contexts_getitem self (current_context self) = Inr ctx \<Longrightarrow>
   fetch k up self =
     ((case up (spec_request k ctx) of
         Inl f \<Rightarrow> Inl (RequestException f)
       | Inr response \<Rightarrow> handle_response response), [spec_request k ctx])"
  by (cases k)
     (simp_all add: get_pods_def get_services_def get_deployments_def get_resource_quotas_def
        get_config_maps_def get_base_url_def get_headers_def requests_get_def spec_request_def
        spec_url_def split: sum.splits)

lemma fetch_unresolved:
  "contexts_getitem self (current_context self) = Inl e \<Longrightarrow> fetch k up self = (Inl e, [])"
  by (cases k)
     (simp_all add: get_pods_def get_services_def get_deployments_def get_resource_quotas_def
        get_config_maps_def)

lemma exec_contexts: "contexts (snd (snd (exec up c self))) = contexts self"
  by (cases c) (auto simp: switch_context_def split: sum.splits prod.splits)

lemma exec_fetch_self: "snd (snd (exec up (Fetch k) self)) = self"
  by (auto split: sum.splits prod.splits)

lemma run_contexts: "contexts (run calls self) = contexts self"
  by (induction calls self rule: run.induct) (simp_all add: exec_contexts)

lemma exec_active: "active self \<Longrightarrow> active (snd (snd (exec up c self)))"
  by (cases c) (auto simp: active_def switch_context_def split: sum.splits prod.splits)

lemma run_active: "active self \<Longrightarrow> active (run calls self)"
  by (induction calls self rule: run.induct) (simp_all add: exec_active)

lemma current_init:
  "current_context (OpenshiftMCP_init ctxs) = (case ctxs of [] \<Rightarrow> None | ctx # _ \<Rightarrow> Some (name ctx))"
  by (simp add: OpenshiftMCP_init_def)

lemma init_active: "ctxs \<noteq> [] \<Longrightarrow> active (OpenshiftMCP_init ctxs)"
  by (cases ctxs) (simp_all add: active_def keys_init current_init set_first_occurrences)

lemma exec_registry_inv: "registry_inv self \<Longrightarrow> registry_inv (snd (snd (exec up c self)))"
  by (cases c) (auto simp: registry_inv_def switch_context_def split: sum.splits prod.splits option.splits)

lemma run_empty: "current_context (run calls (OpenshiftMCP_init [])) = None"
proof -
  have "contexts self = [] \<Longrightarrow> current_context self = None \<Longrightarrow> current_context (run calls self) = None" for self :: OpenshiftMCP
  proof (induction calls self rule: run.induct)
    case (1 self)
    then show ?case by simp
  next
    case (2 up c cs self)
    have "snd (snd (exec up c self)) = self"
      using 2(2) by (cases c) (auto simp: switch_context_def split: sum.splits prod.splits)
    with 2 show ?case by simp
  qed
  then show ?thesis by (simp add: OpenshiftMCP_init_def)
qed

section \<open>The claims\<close>

text \<open>
  Claim C2. For a non-empty list of profiles the constructor builds the mapping from names
  to profiles (a name maps to the last profile that bears it) and makes the first profile's
  name current: right after construction \<^verbatim>\<open>get_current_context\<close> returns that name, and
  the name resolves to a profile of the list that bears it.
\<close>

theorem init_current_is_first:
  "get_current_context (OpenshiftMCP_init (ctx # ctxs)) = Some (name ctx)
   \<and> (\<forall>n. map_of (contexts (OpenshiftMCP_init (ctx # ctxs))) n = last_named n (ctx # ctxs))
   \<and> (\<exists>c. contexts_getitem (OpenshiftMCP_init (ctx # ctxs))
              (get_current_context (OpenshiftMCP_init (ctx # ctxs))) = Inr c
          \<and> name c = name ctx \<and> c \<in> set (ctx # ctxs))"
proof -
  let ?m = "OpenshiftMCP_init (ctx # ctxs)"
  have cur: "get_current_context ?m = Some (name ctx)"
    by (simp add: get_current_context_def current_init)
  have "last_named (name ctx) (ctx # ctxs) \<noteq> None"
    by (simp add: last_named_None)
  then obtain c where c: "last_named (name ctx) (ctx # ctxs) = Some c"
    by blast
  then have "name c = name ctx \<and> c \<in> set (ctx # ctxs)"
    by (rule last_named_Some)
  moreover have "contexts_getitem ?m (get_current_context ?m) = Inr c"
    by (simp add: cur contexts_getitem_init c)
  ultimately show ?thesis
    using cur by (simp add: map_of_init)
qed

theorem init_current_is_first_witness:
  "get_current_context (OpenshiftMCP_init [ctx_a, ctx_b]) = Some ''a''
   \<and> contexts_getitem (OpenshiftMCP_init [ctx_a, ctx_b]) (Some ''a'') = Inr ctx_a"
  using init_current_is_first [of ctx_a "[ctx_b]"]
  by (simp add: ctx_a_def ctx_b_def contexts_getitem_def OpenshiftMCP_init_def)

text \<open>
  Claim C3. \<^verbatim>\<open>switch_context\<close> on a registered name returns true and changes the current
  name, and nothing else, to it; on any other name it returns false and leaves the object
  as it was, also when repeated. The call returns a boolean on every input: it raises
  nothing and sends no request.
\<close>

theorem switch_context_spec:
  "(n \<in> set (list_contexts self) \<longrightarrow>
      switch_context n self = (True, self\<lparr>current_context := Some n\<rparr>))
   \<and> (n \<notin> set (list_contexts self) \<longrightarrow>
      switch_context n self = (False, self)
      \<and> switch_context n (snd (switch_context n self)) = (False, self))
   \<and> exec up (SwitchContext n) self =
       (Inr (RBool (fst (switch_context n self))), [], snd (switch_context n self))"
  by (simp add: switch_context_def list_contexts_def)

theorem switch_context_spec_witness:
  "switch_context ''b'' (OpenshiftMCP_init [ctx_a, ctx_b])
     = (True, (OpenshiftMCP_init [ctx_a, ctx_b])\<lparr>current_context := Some ''b''\<rparr>)
   \<and> switch_context ''zz'' (OpenshiftMCP_init [ctx_a, ctx_b])
     = (False, OpenshiftMCP_init [ctx_a, ctx_b])
   \<and> switch_context ''zz'' (snd (switch_context ''zz'' (OpenshiftMCP_init [ctx_a, ctx_b])))
     = (False, OpenshiftMCP_init [ctx_a, ctx_b])"
proof -
  have k: "list_contexts (OpenshiftMCP_init [ctx_a, ctx_b]) = [''a'', ''b'']"
    by (simp add: list_contexts_def OpenshiftMCP_init_def ctx_a_def ctx_b_def)
  have b: "''b'' \<in> set (list_contexts (OpenshiftMCP_init [ctx_a, ctx_b]))"
    by (simp add: k)
  have z: "''zz'' \<notin> set (list_contexts (OpenshiftMCP_init [ctx_a, ctx_b]))"
    by (simp add: k)
  show ?thesis
    using switch_context_spec [of "''b''" "OpenshiftMCP_init [ctx_a, ctx_b]"] b
          switch_context_spec [of "''zz''" "OpenshiftMCP_init [ctx_a, ctx_b]"] z
    by blast
qed

text \<open>
  Claim C9. \<^verbatim>\<open>list_contexts\<close> returns the names given at construction, each once, in the
  order of their first occurrence (the list of names itself when they are distinct), and
  no later call changes what it returns.
\<close>

theorem list_contexts_spec:
  "set (list_contexts (OpenshiftMCP_init ctxs)) = name ` set ctxs
   \<and> distinct (list_contexts (OpenshiftMCP_init ctxs))
   \<and> list_contexts (OpenshiftMCP_init ctxs) = first_occurrences (map name ctxs)
   \<and> (distinct (map name ctxs) \<longrightarrow> list_contexts (OpenshiftMCP_init ctxs) = map name ctxs)
   \<and> list_contexts (run calls (OpenshiftMCP_init ctxs)) = list_contexts (OpenshiftMCP_init ctxs)"
  by (simp add: list_contexts_def keys_init set_first_occurrences distinct_first_occurrences
      first_occurrences_distinct run_contexts)

theorem list_contexts_spec_witness:
  "list_contexts (run [(respond forbidden, Fetch Pods), (respond forbidden, SwitchContext ''b'')]
                   (OpenshiftMCP_init [ctx_a, ctx_b])) = [''a'', ''b'']"
proof -
  have d: "distinct (map name [ctx_a, ctx_b])"
    by (simp add: ctx_a_def ctx_b_def)
  show ?thesis
    using list_contexts_spec [of "[ctx_a, ctx_b]"
        "[(respond forbidden, Fetch Pods), (respond forbidden, SwitchContext ''b'')]"] d
    by (simp add: ctx_a_def ctx_b_def)
qed

text \<open>
  Claim C10. With a name repeated in the list the constructor still returns a registry; the
  name resolves to the last profile that bears it; the listed names are distinct, as many
  as there are different names, and fewer than the profiles given when a name repeats.
\<close>

theorem duplicate_names_last_wins:
  "map_of (contexts (OpenshiftMCP_init ctxs)) n = last_named n ctxs
   \<and> contexts_getitem (OpenshiftMCP_init ctxs) (Some n) =
       (case last_named n ctxs of None \<Rightarrow> Inl (KeyError (Some n)) | Some c \<Rightarrow> Inr c)
   \<and> distinct (list_contexts (OpenshiftMCP_init ctxs))
   \<and> length (list_contexts (OpenshiftMCP_init ctxs)) = card (name ` set ctxs)
   \<and> length (list_contexts (OpenshiftMCP_init ctxs)) \<le> length ctxs
   \<and> (\<not> distinct (map name ctxs) \<longrightarrow> length (list_contexts (OpenshiftMCP_init ctxs)) < length ctxs)"
proof -
  let ?ks = "list_contexts (OpenshiftMCP_init ctxs)"
  have ks: "?ks = first_occurrences (map name ctxs)"
    by (simp add: list_contexts_def keys_init)
  have d: "distinct ?ks"
    by (simp add: ks distinct_first_occurrences)
  have s: "set ?ks = name ` set ctxs"
    by (simp add: ks set_first_occurrences)
  have len: "length ?ks = card (name ` set ctxs)"
    using distinct_card [OF d] s by simp
  have le: "card (name ` set ctxs) \<le> length ctxs"
    using card_length [of "map name ctxs"] by simp
  have lt: "card (name ` set ctxs) < length ctxs" if "\<not> distinct (map name ctxs)"
  proof -
    have "card (set (map name ctxs)) \<noteq> length (map name ctxs)"
      using that card_distinct [of "map name ctxs"] by blast
    with le show ?thesis by simp
  qed
  show ?thesis
    using d len le lt by (simp add: map_of_init contexts_getitem_init)
qed

theorem duplicate_names_last_wins_witness:
  "contexts_getitem (OpenshiftMCP_init [ctx_a, ctx_b, ctx_a2]) (Some ''a'') = Inr ctx_a2
   \<and> list_contexts (OpenshiftMCP_init [ctx_a, ctx_b, ctx_a2]) = [''a'', ''b'']
   \<and> length (list_contexts (OpenshiftMCP_init [ctx_a, ctx_b, ctx_a2])) < length [ctx_a, ctx_b, ctx_a2]"
proof -
  have nd: "\<not> distinct (map name [ctx_a, ctx_b, ctx_a2])"
    by (simp add: ctx_a_def ctx_b_def ctx_a2_def)
  have ks: "list_contexts (OpenshiftMCP_init [ctx_a, ctx_b, ctx_a2]) = [''a'', ''b'']"
    by (simp add: list_contexts_def OpenshiftMCP_init_def ctx_a_def ctx_b_def ctx_a2_def)
  have l: "last_named ''a'' [ctx_a, ctx_b, ctx_a2] = Some ctx_a2"
    by (simp add: last_named_def ctx_a_def ctx_b_def ctx_a2_def)
  show ?thesis
    using duplicate_names_last_wins [of "[ctx_a, ctx_b, ctx_a2]" "''a''"] nd
    by (simp add: ks l)
qed

lemma active_registry_inv: "active self \<Longrightarrow> registry_inv self"
  by (force simp: active_def registry_inv_def)

lemma active_resolves:
  assumes "active self"
  shows "\<exists>n ctx. current_context self = Some n
           \<and> contexts_getitem self (current_context self) = Inr ctx \<and> (n, ctx) \<in> set (contexts self)"
proof -
  from assms obtain n where n: "current_context self = Some n" "n \<in> fst ` set (contexts self)"
    by (auto simp: active_def)
  then have "map_of (contexts self) n \<noteq> None"
    by (simp add: map_of_eq_None_iff)
  then obtain ctx where c: "map_of (contexts self) n = Some ctx"
    by blast
  then have "(n, ctx) \<in> set (contexts self)"
    by (rule map_of_SomeD)
  with n c show ?thesis
    by (simp add: contexts_getitem_def)
qed

text \<open>
  Claim C1. In a registry constructed from a non-empty list of profiles the current name is
  a key of the mapping: after construction, after any sequence of calls, and after one
  more call of any kind against any upstream, so the invariant holds throughout; a fetch,
  failed or not, leaves the whole object as it was.
\<close>

theorem registry_invariant:
  assumes "ctxs \<noteq> []" and "self = run calls (OpenshiftMCP_init ctxs)"
  shows "registry_inv (OpenshiftMCP_init ctxs)
     \<and> registry_inv self
     \<and> registry_inv (snd (snd (exec up c self)))
     \<and> (\<exists>n. current_context self = Some n \<and> n \<in> set (map fst (contexts self)))
     \<and> (\<exists>n. current_context (snd (snd (exec up c self))) = Some n
             \<and> n \<in> set (map fst (contexts (snd (snd (exec up c self))))))
     \<and> contexts self \<noteq> []
     \<and> snd (snd (exec up (Fetch k) self)) = self"
proof -
  have a0: "active (OpenshiftMCP_init ctxs)"
    using assms(1) by (rule init_active)
  then have a1: "active self"
    unfolding assms(2) by (rule run_active)
  then have a2: "active (snd (snd (exec up c self)))"
    by (rule exec_active)
  have ne: "contexts self \<noteq> []"
    using a1 by (auto simp: active_def)
  show ?thesis
    using a0 [THEN active_registry_inv] a1 [THEN active_registry_inv]
      a2 [THEN active_registry_inv] a1 [unfolded active_def] a2 [unfolded active_def] ne
      exec_fetch_self [of up k self]
    by simp
qed

theorem registry_invariant_witness:
  "registry_inv (run [(respond forbidden, Fetch Pods), (respond forbidden, SwitchContext ''zz'')]
                     (OpenshiftMCP_init [ctx_a, ctx_b]))
   \<and> registry_inv (snd (snd (exec (respond forbidden) (SwitchContext ''b'')
        (run [(respond forbidden, Fetch Pods), (respond forbidden, SwitchContext ''zz'')]
             (OpenshiftMCP_init [ctx_a, ctx_b])))))
   \<and> snd (snd (exec (fail_with Timeout :: json_value upstream) (Fetch Deployments)
        (run [(respond forbidden, Fetch Pods), (respond forbidden, SwitchContext ''zz'')]
             (OpenshiftMCP_init [ctx_a, ctx_b])))) =
       run [(respond forbidden, Fetch Pods), (respond forbidden, SwitchContext ''zz'')]
             (OpenshiftMCP_init [ctx_a, ctx_b])"
proof -
  have ne: "[ctx_a, ctx_b] \<noteq> []" by simp
  show ?thesis
    using registry_invariant [OF ne refl,
        where calls = "[(respond forbidden, Fetch Pods), (respond forbidden, SwitchContext ''zz'')]"
          and up = "respond forbidden" and c = "SwitchContext ''b''"]
      registry_invariant [OF ne refl,
        where calls = "[(respond forbidden, Fetch Pods), (respond forbidden, SwitchContext ''zz'')]"
          and up = "fail_with Timeout :: json_value upstream" and c = "Fetch Deployments"
          and k = Deployments]
    by blast
qed

lemma last_switch_set: "set ks = set ks' \<Longrightarrow> last_switch ks cur cs = last_switch ks' cur cs"
  by (induction ks cur cs rule: last_switch.induct) simp_all

lemma run_current:
  "current_context (run calls self) =
     last_switch (map fst (contexts self)) (current_context self) (map snd calls)"
proof (induction calls self rule: run.induct)
  case (1 self)
  show ?case by simp
next
  case (2 up c cs self)
  show ?case
  proof (cases c)
    case (SwitchContext n)
    then show ?thesis
      using 2 by (simp add: switch_context_def)
  next
    case ListContexts
    then show ?thesis using 2 by simp
  next
    case GetCurrentContext
    then show ?thesis using 2 by simp
  next
    case (Fetch k)
    then show ?thesis
      using 2 by (simp split: sum.splits prod.splits)
  qed
qed

text \<open>
  Claim C6, as stated, fails: \<^verbatim>\<open>get_current_context\<close> returns the current name, a
  string, where the active profile is the record that the name resolves to; and on a
  registry constructed empty it returns \<^verbatim>\<open>None\<close> and raises nothing.
\<close>

theorem current_returns_name_counterexample:
  "get_current_context (OpenshiftMCP_init [ctx_a, ctx_b]) = Some ''a''
   \<and> contexts_getitem (OpenshiftMCP_init [ctx_a, ctx_b])
        (current_context (OpenshiftMCP_init [ctx_a, ctx_b])) = Inr ctx_a
   \<and> exec (respond forbidden) GetCurrentContext (OpenshiftMCP_init [ctx_a, ctx_b])
       = (Inr (RName (Some ''a'')), [], OpenshiftMCP_init [ctx_a, ctx_b])
   \<and> exec (respond forbidden) GetCurrentContext (OpenshiftMCP_init [])
       = (Inr (RName None), [], OpenshiftMCP_init [])"
  by (simp add: get_current_context_def contexts_getitem_def OpenshiftMCP_init_def
      ctx_a_def ctx_b_def)

text \<open>
  Claim C6, amended. After any sequence of calls \<^verbatim>\<open>get_current_context\<close> raises nothing,
  changes nothing and returns the current name: the first profile's name until a switch to
  a registered name, from then on the name last switched to. In a registry constructed
  from a non-empty list that name is registered and resolves
  (\<^verbatim>\<open>self.contexts[self.current_context]\<close>) to the active profile, the last one of the list
  that bears it; in a registry constructed empty the method returns \<^verbatim>\<open>None\<close>, and the
  resolution fails exactly there.
\<close>

theorem current_context_name:
  assumes "self = run calls (OpenshiftMCP_init ctxs)"
  shows "get_current_context self =
           last_switch (map name ctxs) (case ctxs of [] \<Rightarrow> None | ctx # _ \<Rightarrow> Some (name ctx))
             (map snd calls)
       \<and> exec up GetCurrentContext self = (Inr (RName (get_current_context self)), [], self)
       \<and> (ctxs \<noteq> [] \<longrightarrow>
           (\<exists>n ctx. get_current_context self = Some n \<and> n \<in> set (list_contexts self)
              \<and> last_named n ctxs = Some ctx
              \<and> contexts_getitem self (get_current_context self) = Inr ctx
              \<and> name ctx = n \<and> ctx \<in> set ctxs))
       \<and> (ctxs = [] \<longrightarrow> get_current_context self = None)
       \<and> ((\<exists>e. contexts_getitem self (get_current_context self) = Inl e) \<longleftrightarrow> ctxs = [])"
proof -
  have "set (map fst (contexts (OpenshiftMCP_init ctxs))) = set (map name ctxs)"
    by (simp add: keys_init set_first_occurrences)
  then have cur: "get_current_context self =
           last_switch (map name ctxs) (case ctxs of [] \<Rightarrow> None | ctx # _ \<Rightarrow> Some (name ctx))
             (map snd calls)"
    unfolding assms get_current_context_def run_current current_init
    by (rule last_switch_set)
  have ex: "exec up GetCurrentContext self = (Inr (RName (get_current_context self)), [], self)"
    by simp
  have pos: "\<exists>n ctx. get_current_context self = Some n \<and> n \<in> set (list_contexts self)
              \<and> last_named n ctxs = Some ctx
              \<and> contexts_getitem self (get_current_context self) = Inr ctx
              \<and> name ctx = n \<and> ctx \<in> set ctxs" if ne: "ctxs \<noteq> []"
  proof -
    have a: "active self"
      unfolding assms using ne by (intro run_active init_active)
    then obtain n ctx where r: "current_context self = Some n"
        "contexts_getitem self (current_context self) = Inr ctx"
      using active_resolves by blast
    from a r(1) have k: "n \<in> set (list_contexts self)"
      by (simp add: active_def list_contexts_def)
    from r have "map_of (contexts (OpenshiftMCP_init ctxs)) n = Some ctx"
      by (auto simp: contexts_getitem_def assms run_contexts split: option.splits)
    then have l: "last_named n ctxs = Some ctx"
      by (simp add: map_of_init)
    then have "name ctx = n \<and> ctx \<in> set ctxs"
      by (rule last_named_Some)
    with r k l show ?thesis
      by (simp add: get_current_context_def)
  qed
  have none: "get_current_context self = None" if "ctxs = []"
    using that by (simp add: assms get_current_context_def run_empty)
  have iff: "(\<exists>e. contexts_getitem self (get_current_context self) = Inl e) \<longleftrightarrow> ctxs = []"
  proof
    assume "\<exists>e. contexts_getitem self (get_current_context self) = Inl e"
    with pos show "ctxs = []" by force
  next
    assume "ctxs = []"
    then have "contexts_getitem self (get_current_context self) = Inl (KeyError None)"
      using none by (simp add: contexts_getitem_def)
    then show "\<exists>e. contexts_getitem self (get_current_context self) = Inl e"
      by blast
  qed
  from cur ex pos none iff show ?thesis
    by blast
qed

theorem current_context_name_witness:
  "get_current_context (run [] (OpenshiftMCP_init [ctx_a, ctx_b])) = Some ''a''
   \<and> get_current_context
       (run [(respond forbidden, SwitchContext ''b''), (respond forbidden, Fetch Pods),
             (respond forbidden, SwitchContext ''a''), (respond forbidden, SwitchContext ''zz'')]
            (OpenshiftMCP_init [ctx_a, ctx_b])) = Some ''a''
   \<and> get_current_context
       (run [(respond forbidden, SwitchContext ''b''), (respond forbidden, GetCurrentContext)]
            (OpenshiftMCP_init [ctx_a, ctx_b, ctx_a2])) = Some ''b''
   \<and> get_current_context (run [(respond forbidden, SwitchContext ''a'')] (OpenshiftMCP_init [])) = None
   \<and> contexts_getitem
       (run [(respond forbidden, SwitchContext ''b''), (respond forbidden, Fetch Pods),
             (respond forbidden, SwitchContext ''a''), (respond forbidden, SwitchContext ''zz'')]
            (OpenshiftMCP_init [ctx_a, ctx_b]))
       (Some ''a'') = Inr ctx_a"
proof -
  let ?c2 = "[(respond forbidden, SwitchContext ''b''), (respond forbidden, Fetch Pods),
             (respond forbidden, SwitchContext ''a''), (respond forbidden, SwitchContext ''zz'')]"
  let ?c3 = "[(respond forbidden, SwitchContext ''b''), (respond forbidden, GetCurrentContext)]"
  let ?c4 = "[(respond forbidden, SwitchContext ''a'')]"
  let ?first = "\<lambda>ctxs. case ctxs of [] \<Rightarrow> None | ctx # _ \<Rightarrow> Some (name ctx)"
  have r1: "last_switch (map name [ctx_a, ctx_b]) (?first [ctx_a, ctx_b]) (map snd []) = Some ''a''"
    by (simp add: ctx_a_def)
  have r2: "last_switch (map name [ctx_a, ctx_b]) (?first [ctx_a, ctx_b]) (map snd ?c2) = Some ''a''"
    by (simp add: ctx_a_def ctx_b_def)
  have r3: "last_switch (map name [ctx_a, ctx_b, ctx_a2]) (?first [ctx_a, ctx_b, ctx_a2]) (map snd ?c3)
             = Some ''b''"
    by (simp add: ctx_a_def ctx_b_def ctx_a2_def)
  have r4: "last_switch (map name []) (?first []) (map snd ?c4) = None"
    by simp
  have 1: "get_current_context (run [] (OpenshiftMCP_init [ctx_a, ctx_b])) = Some ''a''"
    using current_context_name [OF refl, where calls = "[]" and ctxs = "[ctx_a, ctx_b]",
        THEN conjunct1] r1
    by (rule trans)
  have 2: "get_current_context (run ?c2 (OpenshiftMCP_init [ctx_a, ctx_b])) = Some ''a''"
    using current_context_name [OF refl, where calls = ?c2 and ctxs = "[ctx_a, ctx_b]",
        THEN conjunct1] r2
    by (rule trans)
  have 3: "get_current_context (run ?c3 (OpenshiftMCP_init [ctx_a, ctx_b, ctx_a2])) = Some ''b''"
    using current_context_name [OF refl, where calls = ?c3 and ctxs = "[ctx_a, ctx_b, ctx_a2]",
        THEN conjunct1] r3
    by (rule trans)
  have 4: "get_current_context (run ?c4 (OpenshiftMCP_init [])) = None"
    using current_context_name [OF refl, where calls = ?c4 and ctxs = "[]", THEN conjunct1] r4
    by (rule trans)
  have ne: "[ctx_a, ctx_b] \<noteq> []"
    by simp
  have l: "last_named ''a'' [ctx_a, ctx_b] = Some ctx_a"
    by (simp add: last_named_def ctx_a_def ctx_b_def)
  from current_context_name [OF refl, where calls = ?c2 and ctxs = "[ctx_a, ctx_b]"] ne
  obtain n ctx where r: "get_current_context (run ?c2 (OpenshiftMCP_init [ctx_a, ctx_b])) = Some n"
      "last_named n [ctx_a, ctx_b] = Some ctx"
      "contexts_getitem (run ?c2 (OpenshiftMCP_init [ctx_a, ctx_b]))
         (get_current_context (run ?c2 (OpenshiftMCP_init [ctx_a, ctx_b]))) = Inr ctx"
    by blast
  from r(1) 2 have "n = ''a''"
    by simp
  with r(2) l have "ctx = ctx_a"
    by simp
  with r(3) have 5: "contexts_getitem (run ?c2 (OpenshiftMCP_init [ctx_a, ctx_b])) (Some ''a'') = Inr ctx_a"
    by (simp only: 2)
  from 1 2 3 4 5 show ?thesis
    by blast
qed

lemma str_int_403: "str_int 403 = ''403''"
  by code_simp

lemma init_ab: "OpenshiftMCP_init [ctx_a, ctx_b] =
   \<lparr>contexts = [(''a'', ctx_a), (''b'', ctx_b)], current_context = Some ''a''\<rparr>"
  by (simp add: OpenshiftMCP_init_def ctx_a_def ctx_b_def)

lemma resolve_ab: "contexts_getitem (OpenshiftMCP_init [ctx_a, ctx_b])
    (current_context (OpenshiftMCP_init [ctx_a, ctx_b])) = Inr ctx_a"
  by (simp add: init_ab contexts_getitem_def)

text \<open>
  Claim C7. With the current profile resolved, each of the five fetchers sends one request,
  to the URL of its kind: \<^verbatim>\<open>{api_url}/api/v1/namespaces/{namespace}/{kind}\<close> for pods,
  services, resource quotas and config maps, and the path of the apps group
  \<^verbatim>\<open>{api_url}/apis/apps/v1/namespaces/{namespace}/deployments\<close> for deployments; both hold
  the namespace of the current profile and the path segment of the kind.
\<close>

theorem fetch_request_url:
  assumes "contexts_getitem self (current_context self) = Inr ctx"
  shows "snd (fetch k up self) = [spec_request k ctx]
     \<and> map url (snd (fetch k up self)) = [spec_url k ctx]
     \<and> spec_url k ctx =
         (if k = Deployments
          then api_url ctx @ ''/apis/apps/v1/namespaces/'' @ namespace ctx @ ''/deployments''
          else api_url ctx @ ''/api/v1/namespaces/'' @ namespace ctx @ ''/'' @ path_segment k)"
proof -
  have "snd (fetch k up self) = [spec_request k ctx]"
    by (simp add: fetch_resolved [OF assms])
  moreover have "url (spec_request k ctx) = spec_url k ctx"
    by (simp add: spec_request_def)
  moreover have "spec_url k ctx =
         (if k = Deployments
          then api_url ctx @ ''/apis/apps/v1/namespaces/'' @ namespace ctx @ ''/deployments''
          else api_url ctx @ ''/api/v1/namespaces/'' @ namespace ctx @ ''/'' @ path_segment k)"
    by (cases k) (simp_all add: spec_url_def)
  ultimately show ?thesis by simp
qed

theorem fetch_request_url_witness:
  "map url (snd (fetch Pods (respond forbidden) (OpenshiftMCP_init [ctx_a, ctx_b])))
     = [''https://a.example:6443/api/v1/namespaces/dev/pods'']
   \<and> map url (snd (fetch Deployments (respond forbidden) (OpenshiftMCP_init [ctx_a, ctx_b])))
     = [''https://a.example:6443/apis/apps/v1/namespaces/dev/deployments'']"
proof -
  have p: "spec_url Pods ctx_a = ''https://a.example:6443/api/v1/namespaces/dev/pods''"
    by (simp add: spec_url_def ctx_a_def)
  have d: "spec_url Deployments ctx_a
             = ''https://a.example:6443/apis/apps/v1/namespaces/dev/deployments''"
    by (simp add: spec_url_def ctx_a_def)
  from fetch_request_url [OF resolve_ab, of Pods "respond forbidden"]
  have "map url (snd (fetch Pods (respond forbidden) (OpenshiftMCP_init [ctx_a, ctx_b])))
          = [spec_url Pods ctx_a]"
    by (rule conjunct2 [THEN conjunct1])
  moreover from fetch_request_url [OF resolve_ab, of Deployments "respond forbidden"]
  have "map url (snd (fetch Deployments (respond forbidden) (OpenshiftMCP_init [ctx_a, ctx_b])))
          = [spec_url Deployments ctx_a]"
    by (rule conjunct2 [THEN conjunct1])
  ultimately show ?thesis
    by (simp only: p d)
qed

text \<open>
  Claim C8. When the upstream answers the request with status 200 and a body that parses,
  every fetcher returns the parsed body as it is, having sent that one request, and
  leaves the object unchanged.
\<close>

theorem fetch_ok_passthrough:
  assumes "contexts_getitem self (current_context self) = Inr ctx"
    and "up (spec_request k ctx) = Inr response"
    and "status_code response = 200"
    and "json response = Some j"
  shows "fetch k up self = (Inr j, [spec_request k ctx])
     \<and> exec up (Fetch k) self = (Inr (RPayload j), [spec_request k ctx], self)"
  by (simp add: fetch_resolved [OF assms(1)] assms(2-4) handle_response_def)

theorem fetch_ok_passthrough_witness:
  "fst (fetch Services (respond ok_empty_items) (OpenshiftMCP_init [ctx_a, ctx_b]))
     = Inr (JObj [(''items'', JArr [])])"
proof -
  have r: "respond ok_empty_items (spec_request Services ctx_a) = Inr ok_empty_items"
    by (simp add: respond_def)
  have s: "status_code ok_empty_items = 200"
    by (simp add: ok_empty_items_def)
  have j: "json ok_empty_items = Some (JObj [(''items'', JArr [])])"
    by (simp add: ok_empty_items_def)
  show ?thesis
    using fetch_ok_passthrough
      [where up = "respond ok_empty_items" and k = Services and response = ok_empty_items,
       OF resolve_ab r s j]
    by simp
qed

text \<open>
  Claim C4, as stated, fails: the exception raised on a status other than 200 is built
  from the status and the body alone. A 403 answer yields the same exception for pods and
  for services, and for a registry whose current profile is on another host, so it
  carries neither the kind of resource nor the host.
\<close>

theorem fetch_failure_counterexample:
  "fst (fetch Pods (respond forbidden) (OpenshiftMCP_init [ctx_a]))
     = Inl (Exception ''API Error: 403 - Forbidden'')
   \<and> fst (fetch Services (respond forbidden) (OpenshiftMCP_init [ctx_a]))
     = Inl (Exception ''API Error: 403 - Forbidden'')
   \<and> fst (fetch Pods (respond forbidden) (OpenshiftMCP_init [ctx_b]))
     = Inl (Exception ''API Error: 403 - Forbidden'')
   \<and> api_url ctx_a \<noteq> api_url ctx_b"
  by (simp add: get_pods_def get_services_def get_base_url_def get_headers_def
      contexts_getitem_def requests_get_def handle_response_def respond_def forbidden_def
      OpenshiftMCP_init_def ctx_a_def ctx_b_def str_int_403)

text \<open>
  Claim C4, amended. With the current profile resolved, a fetcher that receives a status
  other than 200 raises an exception whose message is \<^verbatim>\<open>API Error: {status} - {body}\<close>,
  and one whose request fails in transport raises the exception of the transport layer;
  in both cases exactly one request was sent (no retry) and no payload is returned.
\<close>

theorem fetch_failure:
  assumes "contexts_getitem self (current_context self) = Inr ctx"
  shows "(up (spec_request k ctx) = Inr response \<and> status_code response \<noteq> 200 \<longrightarrow>
            fetch k up self =
              (Inl (Exception (''API Error: '' @ str_int (status_code response) @ '' - ''
                                 @ body_text response)), [spec_request k ctx]))
       \<and> (up (spec_request k ctx) = Inl f \<longrightarrow>
            fetch k up self = (Inl (RequestException f), [spec_request k ctx]))"
  by (simp add: fetch_resolved [OF assms] handle_response_def)

theorem fetch_failure_witness:
  "fetch ConfigMaps (respond forbidden) (OpenshiftMCP_init [ctx_a, ctx_b])
     = (Inl (Exception ''API Error: 403 - Forbidden''), [spec_request ConfigMaps ctx_a])
   \<and> fetch ConfigMaps (fail_with Timeout :: json_value upstream) (OpenshiftMCP_init [ctx_a, ctx_b])
     = (Inl (RequestException Timeout), [spec_request ConfigMaps ctx_a])"
proof -
  have r: "respond forbidden (spec_request ConfigMaps ctx_a) = Inr forbidden
            \<and> status_code forbidden \<noteq> 200"
    by (simp add: respond_def forbidden_def)
  have t: "(fail_with Timeout :: json_value upstream) (spec_request ConfigMaps ctx_a) = Inl Timeout"
    by (simp add: fail_with_def)
  have m: "''API Error: '' @ str_int (status_code forbidden) @ '' - '' @ body_text forbidden
           = ''API Error: 403 - Forbidden''"
    by (simp add: forbidden_def str_int_403)
  from fetch_failure [OF resolve_ab, of "respond forbidden" ConfigMaps forbidden] r
  have "fetch ConfigMaps (respond forbidden) (OpenshiftMCP_init [ctx_a, ctx_b])
     = (Inl (Exception (''API Error: '' @ str_int (status_code forbidden) @ '' - ''
                          @ body_text forbidden)), [spec_request ConfigMaps ctx_a])"
    by blast
  then have a: "fetch ConfigMaps (respond forbidden) (OpenshiftMCP_init [ctx_a, ctx_b])
     = (Inl (Exception ''API Error: 403 - Forbidden''), [spec_request ConfigMaps ctx_a])"
    by (simp only: m)
  from fetch_failure [OF resolve_ab,
      of "fail_with Timeout :: json_value upstream" ConfigMaps _ Timeout] t
  have "fetch ConfigMaps (fail_with Timeout :: json_value upstream) (OpenshiftMCP_init [ctx_a, ctx_b])
     = (Inl (RequestException Timeout), [spec_request ConfigMaps ctx_a])"
    by blast
  with a show ?thesis
    by (rule conjI)
qed

text \<open>
  Claim C5, as stated, fails: the constructor applied to the empty list returns a registry,
  with no profile and no current name, whose other methods answer.
\<close>

theorem init_empty_counterexample:
  "OpenshiftMCP_init [] = \<lparr>contexts = [], current_context = None\<rparr>
   \<and> list_contexts (OpenshiftMCP_init []) = []
   \<and> get_current_context (OpenshiftMCP_init []) = None"
  by (simp add: OpenshiftMCP_init_def list_contexts_def get_current_context_def)

text \<open>
  Claim C5, amended. The check for "no profile" is made at start-up, not in the
  constructor: when no configured cluster has a non-empty URL, token and namespace,
  \<^verbatim>\<open>initialize_openshift\<close> raises \<^verbatim>\<open>ValueError\<close> and \<^verbatim>\<open>main\<close> ends before its
  loop; otherwise it constructs the registry from the usable clusters, which then has
  profiles, and the loop starts. The constructor itself accepts the empty list.
\<close>

theorem initialize_openshift_spec:
  "(filter usable config_clusters = [] \<longrightarrow>
      initialize_openshift config_clusters =
        Inl (ValueError ''No valid cluster configurations found in .env file'')
      \<and> main_startup config_clusters =
        Aborted (ValueError ''No valid cluster configurations found in .env file''))
   \<and> (filter usable config_clusters \<noteq> [] \<longrightarrow>
      initialize_openshift config_clusters =
        Inr (OpenshiftMCP_init (map to_context (filter usable config_clusters)))
      \<and> main_startup config_clusters =
        LoopEntered (OpenshiftMCP_init (map to_context (filter usable config_clusters)))
      \<and> contexts (OpenshiftMCP_init (map to_context (filter usable config_clusters))) \<noteq> [])
   \<and> OpenshiftMCP_init [] = \<lparr>contexts = [], current_context = None\<rparr>"
proof -
  have "contexts (OpenshiftMCP_init cs) \<noteq> []" if "cs \<noteq> []" for cs
    using init_active [OF that] by (auto simp: active_def)
  then show ?thesis
    by (simp add: main_startup_def initialize_openshift_def OpenshiftMCP_init_def [of "[]"])
qed

theorem initialize_openshift_spec_witness:
  "main_startup
     [\<lparr>ClusterConfig.name = ''default'', url = [], token = [], namespace = []\<rparr>]
     = Aborted (ValueError ''No valid cluster configurations found in .env file'')
   \<and> main_startup
     [\<lparr>ClusterConfig.name = ''default'', url = [], token = [], namespace = []\<rparr>,
      \<lparr>ClusterConfig.name = ''a'', url = ''https://a.example:6443'', token = ''ta'', namespace = ''dev''\<rparr>]
     = LoopEntered (OpenshiftMCP_init [ctx_a])"
proof -
  let ?d = "\<lparr>ClusterConfig.name = ''default'', url = [], token = [], namespace = []\<rparr>"
  let ?a = "\<lparr>ClusterConfig.name = ''a'', url = ''https://a.example:6443'', token = ''ta'', namespace = ''dev''\<rparr>"
  have e: "filter usable [?d] = []"
    by (simp add: usable_def)
  have n: "filter usable [?d, ?a] = [?a]"
    by (simp add: usable_def)
  have c: "to_context ?a = ctx_a"
    by (simp add: to_context_def ctx_a_def)
  have n': "filter usable [?d, ?a] \<noteq> []"
    unfolding n by simp
  from initialize_openshift_spec [of "[?d]"] e
  have 1: "main_startup [?d]
             = Aborted (ValueError ''No valid cluster configurations found in .env file'')"
    by blast
  from initialize_openshift_spec [of "[?d, ?a]"] n'
  have "main_startup [?d, ?a]
          = LoopEntered (OpenshiftMCP_init (map to_context (filter usable [?d, ?a])))"
    by blast
  then have "main_startup [?d, ?a] = LoopEntered (OpenshiftMCP_init [ctx_a])"
    by (simp only: n c list.map)
  with 1 show ?thesis
    by (rule conjI)
qed

end
